theory Spec2Isabelle
  imports Complex_Main "HOL-Library.Log_Nat" "HOL-Library.Monad_Syntax"
begin

section \<open>Settings store (context/AppContext)\<close>

text \<open>
  JavaScript numbers that the program uses as counts and indices (\<open>cardAmount\<close>, card
  ids, list positions) are modelled as \<open>int\<close>/\<open>nat\<close>; angles, speeds and coordinates are
  modelled as \<open>real\<close>, that is with exact arithmetic. Two computations are modelled a
  second time with the rounding of double-precision arithmetic written out, because what
  they return at particular inputs depends on that rounding: the gesture speed
  (\<open>calculateGestureSpeed_f64\<close>) and the index of the centred card
  (\<open>centeredCardIndex_f64\<close>).
\<close>

record CardContent =
  id_card :: int
  text_card :: string

text \<open>
  \<open>deleteDrawnCard\<close> is read by the home page and written by the settings page; records
  created before the field existed do not have it (\<open>None\<close> is JavaScript's \<open>undefined\<close>,
  which is falsy).
\<close>

record AppSettings =
  cardAmount :: int
  cardContents :: "CardContent list"
  moveSpeed :: real
  deleteDrawnCard :: "bool option"

text \<open>
  \<open>Partial<AppSettings>\<close>: every key may be missing (\<open>None\<close>). For \<open>deleteDrawnCard\<close> a
  present key may itself carry \<open>undefined\<close> (\<open>Some None\<close>), which the spread copies.
\<close>

record PartialAppSettings =
  cardAmountP :: "int option"
  cardContentsP :: "CardContent list option"
  moveSpeedP :: "real option"
  deleteDrawnCardP :: "bool option option"

definition noChange :: PartialAppSettings where
  "noChange = \<lparr>cardAmountP = None, cardContentsP = None, moveSpeedP = None,
                deleteDrawnCardP = None\<rparr>"

text \<open>Decimal rendering of a non-negative integer, as a template literal prints it.\<close>

definition digit :: "nat \<Rightarrow> char" where
  "digit d = ''0123456789'' ! d"

function decimal :: "nat \<Rightarrow> string" where
  "decimal n = (if n < 10 then [digit n] else decimal (n div 10) @ [digit (n mod 10)])"
  by pat_completeness auto
termination
  by (relation "measure (\<lambda>n. n)") auto

declare decimal.simps [simp del]

text \<open>
  \<open>Array.from({length: k}, (_, i) => ({id: base + i, text: `Lucky Card ${base + i + 1}`}))\<close>
\<close>

definition luckyCard :: "nat \<Rightarrow> CardContent" where
  "luckyCard p = \<lparr>id_card = int p, text_card = ''Lucky Card '' @ decimal (p + 1)\<rparr>"

definition additional :: "nat \<Rightarrow> nat \<Rightarrow> CardContent list" where
  "additional base k = map (\<lambda>i. luckyCard (base + i)) [0..<k]"

definition defaultCardContents :: "CardContent list" where
  "defaultCardContents = map luckyCard [0..<10]"

definition defaultSettings :: AppSettings where
  "defaultSettings = \<lparr>cardAmount = 10, cardContents = defaultCardContents, moveSpeed = 1,
                       deleteDrawnCard = None\<rparr>"

text \<open>
  \<open>xs.slice(0, end)\<close>: a negative \<open>end\<close> counts from the back of the array, and the
  result never reaches beyond the array.
\<close>

definition slice0 :: "'a list \<Rightarrow> int \<Rightarrow> 'a list" where
  "slice0 xs e = take (nat (if e < 0 then int (length xs) + e else e)) xs"

text \<open>\<open>{ ...prev, ...newSettings }\<close>\<close>

definition spread :: "AppSettings \<Rightarrow> PartialAppSettings \<Rightarrow> AppSettings" where
  "spread prev newSettings =
     \<lparr>cardAmount = (case cardAmountP newSettings of None \<Rightarrow> cardAmount prev | Some n \<Rightarrow> n),
      cardContents = (case cardContentsP newSettings of None \<Rightarrow> cardContents prev | Some cs \<Rightarrow> cs),
      moveSpeed = (case moveSpeedP newSettings of None \<Rightarrow> moveSpeed prev | Some v \<Rightarrow> v),
      deleteDrawnCard =
        (case deleteDrawnCardP newSettings of None \<Rightarrow> deleteDrawnCard prev | Some d \<Rightarrow> d)\<rparr>"

definition updateSettings :: "AppSettings \<Rightarrow> PartialAppSettings \<Rightarrow> AppSettings" where
  "updateSettings prev newSettings =
     (let updated = spread prev newSettings in
      case cardAmountP newSettings of
        None \<Rightarrow> updated
      | Some n \<Rightarrow>
          if n \<noteq> cardAmount prev then
            (if n > int (length (cardContents prev)) then
               updated\<lparr>cardContents :=
                 cardContents prev @
                 additional (length (cardContents prev))
                            (nat (n - int (length (cardContents prev))))\<rparr>
             else
               updated\<lparr>cardContents := slice0 (cardContents prev) n\<rparr>)
          else updated)"


subsection \<open>Loading and saving (the state initialiser and the effect of \<open>AppProvider\<close>)\<close>

text \<open>
  What \<open>localStorage.getItem\<close> followed by \<open>JSON.parse\<close> delivers: no item (or the
  empty string, which is falsy), a string that \<open>JSON.parse\<close> rejects, or an object of
  the settings shape. Other JSON values are outside this model.
\<close>

datatype stored = NoItem | Unparseable | Parsed AppSettings

definition initialSettings :: "stored \<Rightarrow> AppSettings" where
  "initialSettings item =
     (case item of
        NoItem \<Rightarrow> defaultSettings
      | Unparseable \<Rightarrow> defaultSettings
      | Parsed parsed \<Rightarrow>
          if int (length (cardContents parsed)) < cardAmount parsed then
            parsed\<lparr>cardContents :=
              cardContents parsed @
              additional (length (cardContents parsed))
                         (nat (cardAmount parsed - int (length (cardContents parsed))))\<rparr>
          else parsed)"

text \<open>
  The effect stores \<open>JSON.stringify(settings)\<close>; parsing that string again yields a
  record with the same fields (an \<open>undefined\<close> field is left out and read back as
  \<open>undefined\<close>).
\<close>

definition persist :: "AppSettings \<Rightarrow> stored" where
  "persist s = Parsed s"

section \<open>Settings page (pages/SettingsPage)\<close>

record SettingsPage =
  localCardAmount :: int
  localMoveSpeed :: real
  localCardContents :: "CardContent list"
  localDeleteDrawnCard :: "bool option"

definition openSettingsPage :: "AppSettings \<Rightarrow> SettingsPage" where
  "openSettingsPage s =
     \<lparr>localCardAmount = cardAmount s, localMoveSpeed = moveSpeed s,
      localCardContents = cardContents s, localDeleteDrawnCard = deleteDrawnCard s\<rparr>"

definition handleCardAmountChange :: "SettingsPage \<Rightarrow> int \<Rightarrow> SettingsPage" where
  "handleCardAmountChange p amount =
     (let validAmount = max 3 (min 20 amount);
          len = length (localCardContents p) in
      if validAmount > int len then
        p\<lparr>localCardAmount := validAmount,
          localCardContents := localCardContents p @ additional len (nat (validAmount - int len))\<rparr>
      else
        p\<lparr>localCardAmount := validAmount,
          localCardContents := slice0 (localCardContents p) validAmount\<rparr>)"

text \<open>
  The page calls this with the position of a rendered text field, so \<open>index\<close> is within
  the list; beyond it JavaScript would store an entry without an id, which is outside this
  model (\<open>None\<close>).
\<close>

definition handleCardContentChange :: "SettingsPage \<Rightarrow> nat \<Rightarrow> string \<Rightarrow> SettingsPage option" where
  "handleCardContentChange p index txt =
     (if index < length (localCardContents p) then
        Some (p\<lparr>localCardContents :=
                (localCardContents p)[index := (localCardContents p ! index)\<lparr>text_card := txt\<rparr>]\<rparr>)
      else None)"

definition handleSave :: "AppSettings \<Rightarrow> SettingsPage \<Rightarrow> AppSettings" where
  "handleSave prev p =
     updateSettings prev
       \<lparr>cardAmountP = Some (localCardAmount p),
        cardContentsP = Some (localCardContents p),
        moveSpeedP = Some (localMoveSpeed p),
        deleteDrawnCardP = Some (localDeleteDrawnCard p)\<rparr>"

text \<open>The page's "Reset to Default": the new list has the length of the old local amount.\<close>

definition handleReset_SettingsPage :: "SettingsPage \<Rightarrow> SettingsPage" where
  "handleReset_SettingsPage p =
     (let defaultContents = map luckyCard [0..<nat (localCardAmount p)] in
      p\<lparr>localCardAmount := 10, localMoveSpeed := 1, localDeleteDrawnCard := Some False,
        localCardContents := defaultContents\<rparr>)"

section \<open>Double-precision arithmetic\<close>

text \<open>
  A JavaScript number is an IEEE 754 binary64 value. \<open>f64 x\<close> is the number that the real
  \<open>x\<close> is rounded to, to nearest with a tie going to the even neighbour: a multiple of
  the quantum \<open>2 powi (e - 52)\<close>, where \<open>e = expo x\<close> is the binary exponent of \<open>x\<close>
  (\<open>2 powi e \<le> \<bar>x\<bar> < 2 powi (e + 1)\<close>) but not less than \<open>- 1022\<close>, which covers the
  subnormal numbers. A rounded magnitude of \<open>2 powi 1024\<close> or more is an overflow
  (\<open>Infinity\<close>), which this model does not follow further (\<open>None\<close>). Every decimal
  literal and every arithmetic operation of the source yields the rounded exact result.
\<close>

definition expo :: "real \<Rightarrow> int" where
  "expo x = (if 1 \<le> \<bar>x\<bar> then bitlen \<lfloor>\<bar>x\<bar>\<rfloor> - 1 else - bitlen (\<lceil>1 / \<bar>x\<bar>\<rceil> - 1))"

definition roundEven :: "real \<Rightarrow> int" where
  "roundEven y =
     (let f = \<lfloor>y\<rfloor>; d = y - of_int f in
      if d < 1 / 2 then f else if 1 / 2 < d then f + 1 else if even f then f else f + 1)"

definition f64 :: "real \<Rightarrow> real option" where
  "f64 x =
     (if x = 0 then Some 0
      else
        (let q = 2 powi (max (expo x) (- 1022) - 52);
             y = of_int (roundEven (x / q)) * q in
         if \<bar>y\<bar> < 2 powi 1024 then Some y else None))"

section \<open>Gesture interpreter (hooks/useGestureControl)\<close>












section \<open>Home page (pages/HomePage)\<close>

text \<open>
  A selected card is the number that \<open>handleConfirm\<close> computed; with \<open>cardAmount = 0\<close> the
  remainder \<open>% 0\<close> is \<open>NaN\<close>, which equals no index.
\<close>

datatype card_index = Idx int | NaN

record HomePage =
  settings :: AppSettings
  rotation :: real
  isMoving :: bool
  selectedCard :: "card_index option"
  flippedCard :: "int option"
  direction :: int
  gestureEnabled :: bool
  showInstructions :: bool
  gestureSpeedS :: real
  lastPinchState :: bool

text \<open>
  The remainder operator \<open>%\<close> on numbers truncates the quotient toward zero, so the
  result has the sign of the dividend (\<open>js_rem\<close>, which the program uses with the divisor
  360 only; \<open>int_rem\<close> for two integers, \<open>NaN\<close> for the divisor 0); \<open>Math.round\<close> rounds
  to the nearest integer, a tie upwards.
\<close>

definition trunc :: "real \<Rightarrow> int" where
  "trunc v = (if 0 \<le> v then \<lfloor>v\<rfloor> else \<lceil>v\<rceil>)"

definition js_rem :: "real \<Rightarrow> real \<Rightarrow> real" where
  "js_rem a b = a - b * of_int (trunc (a / b))"

definition Math_round :: "real \<Rightarrow> int" where
  "Math_round v = \<lfloor>v + 1 / 2\<rfloor>"

definition int_rem :: "int \<Rightarrow> int \<Rightarrow> card_index" where
  "int_rem a b = (if b = 0 then NaN else Idx (sgn a * (\<bar>a\<bar> mod \<bar>b\<bar>)))"

definition normalizedRotation :: "real \<Rightarrow> real" where
  "normalizedRotation rot = js_rem (js_rem rot 360 + 360) 360"

definition centeredCardIndex :: "int \<Rightarrow> real \<Rightarrow> card_index" where
  "centeredCardIndex amount rot =
     (let anglePerCard = 360 / of_int amount in
      int_rem (Math_round (normalizedRotation rot / anglePerCard)) amount)"

text \<open>
  The same computation in double-precision arithmetic: the remainders are exact, the
  quotient \<open>360 / cardAmount\<close>, the sum with 360 and the quotient by the angle per card
  are rounded; \<open>Math.round\<close> and the integer remainder are exact.
\<close>

definition centeredCardIndex_f64 :: "int \<Rightarrow> real \<Rightarrow> card_index option" where
  "centeredCardIndex_f64 amount rot = do {
     anglePerCard \<leftarrow> f64 (360 / of_int amount);
     shifted \<leftarrow> f64 (js_rem rot 360 + 360);
     quotient \<leftarrow> f64 (js_rem shifted 360 / anglePerCard);
     Some (int_rem (Math_round quotient) amount)
   }"


definition handleCardClick :: "HomePage \<Rightarrow> int \<Rightarrow> HomePage" where
  "handleCardClick s index =
     (if isMoving s \<or> selectedCard s = None then s
      else if selectedCard s = Some (Idx index) then
        s\<lparr>flippedCard := (if flippedCard s = Some index then None else Some index)\<rparr>
      else s)"

text \<open>\<open>cardContents.filter((_, i) => i !== selectedCard)\<close>\<close>

definition withoutIndex :: "card_index option \<Rightarrow> 'a list \<Rightarrow> 'a list" where
  "withoutIndex sel xs =
     map snd (filter (\<lambda>(i, c). Some (Idx (int i)) \<noteq> sel) (enumerate 0 xs))"

definition handleReset :: "HomePage \<Rightarrow> HomePage" where
  "handleReset s =
     (let s1 = s\<lparr>selectedCard := None, flippedCard := None, lastPinchState := False,
                 gestureSpeedS := 0\<rparr>;
          s2 = (if deleteDrawnCard (settings s) = Some True \<and> selectedCard s \<noteq> None
                   \<and> length (cardContents (settings s)) > 3 then
                  (let updatedContents = withoutIndex (selectedCard s) (cardContents (settings s));
                       newAmount = max 3 (cardAmount (settings s) - 1) in
                   s1\<lparr>settings :=
                        updateSettings (settings s)
                          (noChange\<lparr>cardContentsP := Some updatedContents,
                                    cardAmountP := Some newAmount\<rparr>)\<rparr>)
                else s1) in
      s2\<lparr>isMoving := True\<rparr>)"








section \<open>Concrete settings, pages and frames used in the examples below\<close>

definition storedSix :: AppSettings where
  "storedSix =
     \<lparr>cardAmount = 10,
      cardContents =
        [\<lparr>id_card = 6, text_card = ''a''\<rparr>, \<lparr>id_card = 1, text_card = ''b''\<rparr>,
         \<lparr>id_card = 2, text_card = ''c''\<rparr>, \<lparr>id_card = 3, text_card = ''d''\<rparr>,
         \<lparr>id_card = 4, text_card = ''e''\<rparr>, \<lparr>id_card = 5, text_card = ''f''\<rparr>],
      moveSpeed = 1, deleteDrawnCard = None\<rparr>"

definition sixOfTen :: AppSettings where
  "sixOfTen = defaultSettings\<lparr>cardContents := map luckyCard [0..<6]\<rparr>"

definition sevenCards :: AppSettings where
  "sevenCards = defaultSettings\<lparr>cardAmount := 7, cardContents := map luckyCard [0..<7]\<rparr>"

definition fourCards :: AppSettings where
  "fourCards =
     \<lparr>cardAmount = 4,
      cardContents =
        [\<lparr>id_card = 0, text_card = ''A''\<rparr>, \<lparr>id_card = 1, text_card = ''B''\<rparr>,
         \<lparr>id_card = 2, text_card = ''C''\<rparr>, \<lparr>id_card = 3, text_card = ''D''\<rparr>],
      moveSpeed = 1, deleteDrawnCard = Some True\<rparr>"

text \<open>The home page after a draw that stopped on the first of four cards.\<close>

definition drawnFirst :: HomePage where
  "drawnFirst =
     \<lparr>settings = fourCards, rotation = 0, isMoving = False,
      selectedCard = Some (centeredCardIndex 4 0), flippedCard = Some 0, direction = 1,
      gestureEnabled = False, showInstructions = False, gestureSpeedS = 0,
      lastPinchState = False\<rparr>"




text \<open>
  The settings page opened on the default settings, after the text of the first card was
  edited and the amount was then set to 5.
\<close>

definition editedPage :: SettingsPage where
  "editedPage =
     (case handleCardContentChange (openSettingsPage defaultSettings) 0 ''Edited'' of
        Some p \<Rightarrow> handleCardAmountChange p 5
      | None \<Rightarrow> openSettingsPage defaultSettings)"

section \<open>Properties\<close>

subsection \<open>Rounding\<close>

text \<open>
  Double-precision arithmetic: \<open>expo\<close> is the binary exponent, and a rounded number is
  within half a quantum of the exact one.
\<close>

lemma powi_pos: "0 < (2::real) powi e"
  by (simp add: power_int_def)

lemma powi_Suc: "(2::real) powi (e + 1) = 2 * 2 powi e"
  by (simp add: power_int_add)

lemma expo_bounds:
  assumes "x \<noteq> 0"
  shows "2 powi expo x \<le> \<bar>x\<bar>" and "\<bar>x\<bar> < 2 powi (expo x + 1)"
proof -
  have "2 powi expo x \<le> \<bar>x\<bar> \<and> \<bar>x\<bar> < 2 powi (expo x + 1)"
  proof (cases "1 \<le> \<bar>x\<bar>")
    case True
    define n where "n = \<lfloor>\<bar>x\<bar>\<rfloor>"
    have n: "0 < n" using True by (simp add: n_def)
    then have b: "1 \<le> bitlen n" by (simp add: bitlen_alt_def)
    have e: "expo x = bitlen n - 1" using True by (simp add: expo_def n_def)
    from bitlen_bounds [OF n] have lo: "2 ^ nat (bitlen n - 1) \<le> n" and hi: "n < 2 ^ nat (bitlen n)"
      by simp_all
    have "real_of_int (2 ^ nat (bitlen n - 1)) \<le> real_of_int n" using lo by (simp only: of_int_le_iff)
    also have "\<dots> \<le> \<bar>x\<bar>" by (simp add: n_def)
    finally have 1: "2 powi expo x \<le> \<bar>x\<bar>" using b by (simp add: e power_int_def)
    have "n + 1 \<le> 2 ^ nat (bitlen n)" using hi by simp
    then have "real_of_int (n + 1) \<le> real_of_int (2 ^ nat (bitlen n))" by (simp only: of_int_le_iff)
    moreover have "\<bar>x\<bar> < real_of_int (n + 1)" unfolding n_def by linarith
    ultimately have "\<bar>x\<bar> < 2 ^ nat (bitlen n)" by simp
    then have 2: "\<bar>x\<bar> < 2 powi (expo x + 1)" using b by (simp add: e power_int_def)
    show ?thesis using 1 2 by simp
  next
    case False
    then have small: "\<bar>x\<bar> < 1" by simp
    have pos: "0 < \<bar>x\<bar>" using assms by simp
    define y where "y = 1 / \<bar>x\<bar>"
    have y1: "1 < y" using small pos by (simp add: y_def)
    define m where "m = \<lceil>y\<rceil> - 1"
    have m: "0 < m" using y1 unfolding m_def by linarith
    then have b: "1 \<le> bitlen m" by (simp add: bitlen_alt_def)
    have e: "expo x = - bitlen m" using False by (simp add: expo_def m_def y_def)
    from bitlen_bounds [OF m] have lo: "2 ^ nat (bitlen m - 1) \<le> m" and hi: "m < 2 ^ nat (bitlen m)"
      by simp_all
    have "m + 1 \<le> 2 ^ nat (bitlen m)" using hi by simp
    then have "real_of_int (m + 1) \<le> real_of_int (2 ^ nat (bitlen m))" by (simp only: of_int_le_iff)
    moreover have "y \<le> real_of_int (m + 1)" unfolding m_def by simp
    ultimately have "y \<le> 2 ^ nat (bitlen m)" by simp
    then have "1 / 2 ^ nat (bitlen m) \<le> \<bar>x\<bar>"
      using pos by (simp add: y_def field_simps)
    then have 1: "2 powi expo x \<le> \<bar>x\<bar>"
      using b by (simp add: e power_int_def field_simps)
    have "real_of_int (2 ^ nat (bitlen m - 1)) \<le> real_of_int m" using lo by (simp only: of_int_le_iff)
    then have "(2::real) ^ nat (bitlen m - 1) \<le> real_of_int m" by simp
    moreover have "real_of_int m < y" unfolding m_def by linarith
    ultimately have "2 ^ nat (bitlen m - 1) < y" by linarith
    then have "\<bar>x\<bar> < 1 / 2 ^ nat (bitlen m - 1)"
      using pos by (simp add: y_def field_simps)
    moreover have "(2::real) powi (- bitlen m + 1) = 1 / 2 ^ nat (bitlen m - 1)"
      using b by (simp add: power_int_def field_simps)
    ultimately have 2: "\<bar>x\<bar> < 2 powi (expo x + 1)" by (simp add: e)
    show ?thesis using 1 2 by simp
  qed
  then show "2 powi expo x \<le> \<bar>x\<bar>" and "\<bar>x\<bar> < 2 powi (expo x + 1)" by simp_all
qed

lemma powi_less_cancel:
  assumes "(2::real) powi a < 2 powi b"
  shows "a < b"
proof (rule ccontr)
  assume "\<not> a < b"
  then have "b \<le> a" by simp
  then have "(2::real) powi b \<le> 2 powi a" by (rule power_int_increasing) simp
  then show False using assms by simp
qed

lemma expo_unique:
  assumes "2 powi e \<le> \<bar>x\<bar>" and "\<bar>x\<bar> < 2 powi (e + 1)"
  shows "expo x = e"
proof -
  have "0 < \<bar>x\<bar>" using assms(1) powi_pos [of e] by linarith
  then have x: "x \<noteq> 0" by simp
  note b = expo_bounds [OF x]
  have "(2::real) powi e < 2 powi (expo x + 1)" using assms(1) b(2) by linarith
  then have 1: "e < expo x + 1" by (rule powi_less_cancel)
  have "(2::real) powi expo x < 2 powi (e + 1)" using assms(2) b(1) by linarith
  then have 2: "expo x < e + 1" by (rule powi_less_cancel)
  show ?thesis using 1 2 by simp
qed

text \<open>Rounding to an integer: the nearest one, at most one half away.\<close>

lemma roundEven_near:
  assumes "\<bar>y - of_int m\<bar> < 1 / 2"
  shows "roundEven y = m"
proof -
  have "\<lfloor>y\<rfloor> = m \<or> \<lfloor>y\<rfloor> = m - 1" using assms by linarith
  then show ?thesis
  proof
    assume f: "\<lfloor>y\<rfloor> = m"
    have "y - of_int \<lfloor>y\<rfloor> < 1 / 2" using assms unfolding f by linarith
    then show ?thesis by (simp add: roundEven_def Let_def f)
  next
    assume f: "\<lfloor>y\<rfloor> = m - 1"
    have "1 / 2 < y - of_int \<lfloor>y\<rfloor>" using assms unfolding f by (simp add: abs_if split: if_splits)
    then show ?thesis by (simp add: roundEven_def Let_def f)
  qed
qed

lemma roundEven_error: "\<bar>of_int (roundEven y) - y\<bar> \<le> 1 / 2"
proof -
  have "of_int \<lfloor>y\<rfloor> \<le> y" "y < of_int \<lfloor>y\<rfloor> + 1" by linarith+
  then show ?thesis by (auto simp add: roundEven_def Let_def)
qed

lemma roundEven_nonneg: "0 \<le> y \<Longrightarrow> 0 \<le> roundEven y"
  by (auto simp add: roundEven_def Let_def)

text \<open>Rounding keeps the sign.\<close>

lemma f64_nonneg:
  assumes "0 \<le> x" and "f64 x = Some y"
  shows "0 \<le> y"
proof (cases "x = 0")
  case True
  then show ?thesis using assms(2) by (simp add: f64_def)
next
  case False
  define q :: real where "q = 2 powi (max (expo x) (- 1022) - 52)"
  have q: "0 < q" by (simp add: q_def powi_pos)
  then have "0 \<le> x / q" using assms(1) by simp
  then have "0 \<le> roundEven (x / q)" by (rule roundEven_nonneg)
  then have "0 \<le> of_int (roundEven (x / q)) * q" using q by simp
  moreover have "y = of_int (roundEven (x / q)) * q"
    using assms(2) False by (simp add: f64_def Let_def q_def split: if_splits)
  ultimately show ?thesis by simp
qed

text \<open>The result is a nearest multiple of the quantum.\<close>

lemma f64_error:
  assumes "f64 x = Some y"
  shows "\<bar>y - x\<bar> \<le> 2 powi (max (expo x) (- 1022) - 53)"
proof (cases "x = 0")
  case True
  then show ?thesis using assms powi_pos [of "max (expo 0) (- 1022) - 53"] by (simp add: f64_def)
next
  case False
  define q :: real where "q = 2 powi (max (expo x) (- 1022) - 52)"
  have q: "0 < q" by (simp add: q_def powi_pos)
  have y: "y = of_int (roundEven (x / q)) * q"
    using assms False by (simp add: f64_def Let_def q_def split: if_splits)
  have "y - x = (of_int (roundEven (x / q)) - x / q) * q"
    using q by (simp add: y field_simps)
  then have "\<bar>y - x\<bar> = \<bar>of_int (roundEven (x / q)) - x / q\<bar> * q"
    using q by (simp add: abs_mult)
  also have "\<dots> \<le> 1 / 2 * q"
    using roundEven_error [of "x / q"] q by (intro mult_right_mono) simp_all
  also have "1 / 2 * q = 2 powi (max (expo x) (- 1022) - 53)"
  proof -
    have "(2::real) powi (max (expo x) (- 1022) - 53 + 1) = 2 * 2 powi (max (expo x) (- 1022) - 53)"
      by (rule powi_Suc)
    moreover have "max (expo x) (- 1022) - 53 + 1 = max (expo x) (- 1022) - 52" by simp
    ultimately show ?thesis by (simp add: q_def)
  qed
  finally show ?thesis .
qed

text \<open>
  Rounding a number \<open>x\<close> of the normal range with the exponent \<open>e\<close>: the result is
  \<open>m * 2 powi (e - 52)\<close> for the integer \<open>m\<close> nearest to \<open>x / 2 powi (e - 52)\<close>.
\<close>

lemma f64_normal:
  assumes "2 powi e \<le> \<bar>x\<bar>" and "\<bar>x\<bar> < 2 powi (e + 1)"
    and "- 1022 \<le> e" and "e \<le> 1022"
    and "\<bar>x / 2 powi (e - 52) - of_int m\<bar> < 1 / 2"
  shows "f64 x = Some (of_int m * 2 powi (e - 52))"
proof -
  have "0 < \<bar>x\<bar>" using assms(1) powi_pos [of e] by linarith
  then have x: "x \<noteq> 0" by simp
  have e: "expo x = e" using assms(1,2) by (rule expo_unique)
  have mx: "max (expo x) (- 1022) - 52 = e - 52" using assms(3) by (simp add: e)
  define q :: real where "q = 2 powi (e - 52)"
  have q: "0 < q" by (simp add: q_def powi_pos)
  have r: "roundEven (x / q) = m" using assms(5) unfolding q_def by (rule roundEven_near)
  have q53: "q * 2 ^ 53 = 2 powi (e + 1)"
  proof -
    have "(2::real) powi (e - 52 + 53) = 2 powi (e - 52) * 2 powi 53"
      by (rule power_int_add) simp
    moreover have "e - 52 + 53 = e + 1" by simp
    ultimately show ?thesis by (simp add: q_def)
  qed
  have "\<bar>x / q\<bar> < 2 ^ 53"
  proof -
    have "\<bar>x\<bar> < q * 2 ^ 53" using assms(2) q53 by simp
    then show ?thesis using q by (simp add: field_simps)
  qed
  then have "\<bar>real_of_int m\<bar> < 2 ^ 53 + 1 / 2" using assms(5) unfolding q_def [symmetric] by linarith
  then have "real_of_int \<bar>m\<bar> < real_of_int (9007199254740992 + 1)" by simp
  then have "\<bar>m\<bar> < 9007199254740992 + 1" by (simp only: of_int_less_iff)
  then have "\<bar>m\<bar> \<le> 9007199254740992" by simp
  then have "real_of_int \<bar>m\<bar> \<le> real_of_int 9007199254740992" by (simp only: of_int_le_iff)
  then have "\<bar>real_of_int m\<bar> \<le> 2 ^ 53" by simp
  then have "\<bar>real_of_int m * q\<bar> \<le> 2 ^ 53 * q" using q by (simp add: abs_mult)
  also have "\<dots> = 2 powi (e + 1)" using q53 by (simp add: mult.commute)
  also have "\<dots> \<le> 2 powi 1023" using assms(4) by (intro power_int_increasing) simp_all
  also have "\<dots> < 2 powi 1024" by (intro power_int_strict_increasing) simp_all
  finally have "\<bar>real_of_int m * q\<bar> < 2 powi 1024" .
  then show ?thesis using x r by (simp add: f64_def Let_def mx q_def [symmetric])
qed

text \<open>No overflow for a number of moderate size.\<close>

lemma quantum_error:
  assumes "0 < q"
  shows "\<bar>of_int (roundEven (x / q)) * q - x\<bar> \<le> q / 2"
proof -
  have "of_int (roundEven (x / q)) * q - x = (of_int (roundEven (x / q)) - x / q) * q"
    using assms by (simp add: field_simps)
  then have "\<bar>of_int (roundEven (x / q)) * q - x\<bar> = \<bar>of_int (roundEven (x / q)) - x / q\<bar> * q"
    using assms by (simp add: abs_mult)
  also have "\<dots> \<le> 1 / 2 * q"
    using roundEven_error [of "x / q"] assms by (intro mult_right_mono) simp_all
  finally show ?thesis by simp
qed

lemma quantum_le:
  assumes "x \<noteq> 0"
  shows "2 powi (max (expo x) (- 1022) - 52) \<le> \<bar>x\<bar> + 1"
proof (cases "- 1022 \<le> expo x")
  case True
  then have "max (expo x) (- 1022) - 52 = expo x - 52" by simp
  moreover have "(2::real) powi (expo x - 52) \<le> 2 powi expo x"
    by (intro power_int_increasing) simp_all
  ultimately show ?thesis using expo_bounds(1) [OF assms] by simp
next
  case False
  then have "max (expo x) (- 1022) - 52 = - 1074" by simp
  moreover have "(2::real) powi (- 1074) \<le> 2 powi 0"
    by (intro power_int_increasing) simp_all
  ultimately show ?thesis by simp
qed

lemma f64_defined:
  assumes "\<bar>x\<bar> \<le> 1024"
  shows "\<exists>y. f64 x = Some y \<and> \<bar>y\<bar> \<le> 2 * \<bar>x\<bar> + 1"
proof (cases "x = 0")
  case True
  then show ?thesis by (simp add: f64_def)
next
  case False
  define q :: real where "q = 2 powi (max (expo x) (- 1022) - 52)"
  define y where "y = of_int (roundEven (x / q)) * q"
  have q: "0 < q" by (simp add: q_def powi_pos)
  have "\<bar>y - x\<bar> \<le> q / 2" unfolding y_def using q by (rule quantum_error)
  moreover have "q \<le> \<bar>x\<bar> + 1" unfolding q_def using False by (rule quantum_le)
  ultimately have b: "\<bar>y\<bar> \<le> 2 * \<bar>x\<bar> + 1" by linarith
  have "(2::real) powi 12 \<le> 2 powi 1024" by (intro power_int_increasing) simp_all
  then have "\<bar>y\<bar> < 2 powi 1024" using b assms by simp
  then have "f64 x = Some y" using False by (simp add: f64_def Let_def q_def y_def)
  then show ?thesis using b by blast
qed

text \<open>The rounding error relative to the number.\<close>

lemma quantum_le_rel:
  assumes "x \<noteq> 0"
  shows "2 powi (max (expo x) (- 1022) - 52) \<le> (\<bar>x\<bar> + 1) / 2 ^ 52"
proof -
  have m: "2 powi (max (expo x) (- 1022)) \<le> \<bar>x\<bar> + 1"
  proof (cases "- 1022 \<le> expo x")
    case True
    then have "max (expo x) (- 1022) = expo x" by simp
    then show ?thesis using expo_bounds(1) [OF assms] by simp
  next
    case False
    then have "max (expo x) (- 1022) = - 1022" by simp
    moreover have "(2::real) powi (- 1022) \<le> 2 powi 0"
      by (intro power_int_increasing) simp_all
    ultimately show ?thesis by simp
  qed
  have "(2::real) powi (max (expo x) (- 1022) + (- 52)) =
        2 powi (max (expo x) (- 1022)) * 2 powi (- 52)"
    by (rule power_int_add) simp
  moreover have "max (expo x) (- 1022) + (- 52) = max (expo x) (- 1022) - 52" by simp
  ultimately have "(2::real) powi (max (expo x) (- 1022) - 52) =
        2 powi (max (expo x) (- 1022)) / 2 ^ 52"
    by (simp add: power_int_minus field_simps)
  then show ?thesis using m by (simp add: divide_right_mono)
qed

lemma f64_close:
  assumes "\<bar>x\<bar> \<le> 1024"
  shows "\<exists>y. f64 x = Some y \<and> \<bar>y - x\<bar> \<le> (\<bar>x\<bar> + 1) / 2 ^ 53 \<and> (0 \<le> x \<longrightarrow> 0 \<le> y)"
proof -
  obtain y where y: "f64 x = Some y" using f64_defined [OF assms] by blast
  have "\<bar>y - x\<bar> \<le> (\<bar>x\<bar> + 1) / 2 ^ 53"
  proof (cases "x = 0")
    case True
    then show ?thesis using y by (simp add: f64_def)
  next
    case False
    define q :: real where "q = 2 powi (max (expo x) (- 1022) - 52)"
    have q: "0 < q" by (simp add: q_def powi_pos)
    have "y = of_int (roundEven (x / q)) * q"
      using y False by (simp add: f64_def Let_def q_def split: if_splits)
    then have "\<bar>y - x\<bar> \<le> q / 2" using quantum_error [OF q, of x] by simp
    moreover have "q \<le> (\<bar>x\<bar> + 1) / 2 ^ 52" unfolding q_def using False by (rule quantum_le_rel)
    ultimately show ?thesis by simp
  qed
  moreover have "0 \<le> y" if "0 \<le> x" using that y by (rule f64_nonneg)
  ultimately show ?thesis using y by blast
qed

subsection \<open>Settings: resizing the card list\<close>

lemma length_additional: "length (additional base k) = k"
  by (simp add: additional_def)

lemma additional_upt: "additional base k = map luckyCard [base..<base + k]"
  by (induction k) (simp_all add: additional_def)

lemma slice0_nonneg: "0 \<le> e \<Longrightarrow> slice0 xs e = take (nat e) xs"
  by (simp add: slice0_def)

lemma grow_length:
  fixes xs :: "CardContent list"
  assumes "int (length xs) < n"
  shows "xs @ additional (length xs) (nat (n - int (length xs))) =
           xs @ map luckyCard [length xs..<nat n]"
    and "int (length (xs @ additional (length xs) (nat (n - int (length xs))))) = n"
proof -
  have "length xs + nat (n - int (length xs)) = nat n"
    using assms by linarith
  then show "xs @ additional (length xs) (nat (n - int (length xs))) =
               xs @ map luckyCard [length xs..<nat n]"
    by (simp add: additional_upt)
  show "int (length (xs @ additional (length xs) (nat (n - int (length xs))))) = n"
    using assms by (simp add: length_additional)
qed

lemma updateSettings_changed_amount:
  assumes "cardAmountP ns = Some n" and "n \<noteq> cardAmount prev"
  shows "cardContents (updateSettings prev ns) =
           (if n > int (length (cardContents prev)) then
              cardContents prev @
              additional (length (cardContents prev)) (nat (n - int (length (cardContents prev))))
            else slice0 (cardContents prev) n)"
  using assms by (simp add: updateSettings_def Let_def)

lemma updateSettings_amount:
  "cardAmountP ns = Some n \<Longrightarrow> cardAmount (updateSettings prev ns) = n"
  by (simp add: updateSettings_def spread_def Let_def)

lemma updateSettings_same_amount:
  "cardAmountP ns = None \<or> cardAmountP ns = Some (cardAmount prev) \<Longrightarrow>
   updateSettings prev ns = spread prev ns"
  by (auto simp add: updateSettings_def Let_def)

lemma initialSettings_pad:
  assumes "int (length (cardContents parsed)) < cardAmount parsed"
  shows "initialSettings (Parsed parsed) =
           parsed\<lparr>cardContents := cardContents parsed @
                     map luckyCard [length (cardContents parsed)..<nat (cardAmount parsed)]\<rparr>"
  using assms grow_length(1) [OF assms] by (simp add: initialSettings_def)

lemma initialSettings_keep:
  assumes "cardAmount parsed \<le> int (length (cardContents parsed))"
  shows "initialSettings (Parsed parsed) = parsed"
  using assms by (simp add: initialSettings_def)

lemma luckyCard_values:
  "luckyCard 0 = \<lparr>id_card = 0, text_card = ''Lucky Card 1''\<rparr>"
  "luckyCard 1 = \<lparr>id_card = 1, text_card = ''Lucky Card 2''\<rparr>"
  "luckyCard 2 = \<lparr>id_card = 2, text_card = ''Lucky Card 3''\<rparr>"
  "luckyCard 3 = \<lparr>id_card = 3, text_card = ''Lucky Card 4''\<rparr>"
  "luckyCard 4 = \<lparr>id_card = 4, text_card = ''Lucky Card 5''\<rparr>"
  "luckyCard 5 = \<lparr>id_card = 5, text_card = ''Lucky Card 6''\<rparr>"
  "luckyCard 6 = \<lparr>id_card = 6, text_card = ''Lucky Card 7''\<rparr>"
  "luckyCard 7 = \<lparr>id_card = 7, text_card = ''Lucky Card 8''\<rparr>"
  "luckyCard 8 = \<lparr>id_card = 8, text_card = ''Lucky Card 9''\<rparr>"
  "luckyCard 9 = \<lparr>id_card = 9, text_card = ''Lucky Card 10''\<rparr>"
  by (simp_all add: luckyCard_def decimal.simps digit_def)

lemma defaultCardContents_eval:
  "defaultCardContents =
     [\<lparr>id_card = 0, text_card = ''Lucky Card 1''\<rparr>, \<lparr>id_card = 1, text_card = ''Lucky Card 2''\<rparr>,
      \<lparr>id_card = 2, text_card = ''Lucky Card 3''\<rparr>, \<lparr>id_card = 3, text_card = ''Lucky Card 4''\<rparr>,
      \<lparr>id_card = 4, text_card = ''Lucky Card 5''\<rparr>, \<lparr>id_card = 5, text_card = ''Lucky Card 6''\<rparr>,
      \<lparr>id_card = 6, text_card = ''Lucky Card 7''\<rparr>, \<lparr>id_card = 7, text_card = ''Lucky Card 8''\<rparr>,
      \<lparr>id_card = 8, text_card = ''Lucky Card 9''\<rparr>, \<lparr>id_card = 9, text_card = ''Lucky Card 10''\<rparr>]"
  by (simp add: defaultCardContents_def upt_rec luckyCard_def decimal.simps digit_def)

text \<open>
  C2, as the code has it. The list is brought to the length \<open>cardAmount\<close> in two places
  only: when \<open>updateSettings\<close> receives a (non-negative) \<open>cardAmount\<close> that differs from
  the current one, and when a stored record with fewer entries than its \<open>cardAmount\<close> is
  loaded. Shrinking keeps the leading entries; growing appends the entries
  \<open>luckyCard k\<close> for the new positions \<open>k\<close>, whose ids are these positions. A call that
  leaves \<open>cardAmount\<close> as it is only merges the passed fields, and a stored list longer
  than \<open>cardAmount\<close> is loaded as it is; in both cases the length may differ from
  \<open>cardAmount\<close>.
\<close>

theorem cardContents_length_after_resize:
  "(cardAmountP ns = Some n \<and> n \<noteq> cardAmount prev \<and> 0 \<le> n \<longrightarrow>
      cardAmount (updateSettings prev ns) = n
      \<and> int (length (cardContents (updateSettings prev ns))) = n
      \<and> (n \<le> int (length (cardContents prev)) \<longrightarrow>
           cardContents (updateSettings prev ns) = take (nat n) (cardContents prev))
      \<and> (int (length (cardContents prev)) < n \<longrightarrow>
           cardContents (updateSettings prev ns) =
             cardContents prev @ map luckyCard [length (cardContents prev)..<nat n]))
   \<and> (int (length (cardContents parsed)) \<le> cardAmount parsed \<longrightarrow>
      cardAmount (initialSettings (Parsed parsed)) = cardAmount parsed
      \<and> int (length (cardContents (initialSettings (Parsed parsed)))) = cardAmount parsed
      \<and> cardContents (initialSettings (Parsed parsed)) =
           cardContents parsed @
           map luckyCard [length (cardContents parsed)..<nat (cardAmount parsed)])
   \<and> (cardAmountP ns' = None \<or> cardAmountP ns' = Some (cardAmount prev') \<longrightarrow>
      updateSettings prev' ns' = spread prev' ns')
   \<and> (cardAmount parsed' < int (length (cardContents parsed')) \<longrightarrow>
      initialSettings (Parsed parsed') = parsed')
   \<and> map id_card (map luckyCard [k..<m]) = map int [k..<m]"
proof (intro conjI impI)
  assume a: "cardAmountP ns = Some n \<and> n \<noteq> cardAmount prev \<and> 0 \<le> n"
  then have c: "cardContents (updateSettings prev ns) =
           (if n > int (length (cardContents prev)) then
              cardContents prev @
              additional (length (cardContents prev)) (nat (n - int (length (cardContents prev))))
            else slice0 (cardContents prev) n)"
    using updateSettings_changed_amount by blast
  show "cardAmount (updateSettings prev ns) = n"
    using a updateSettings_amount by blast
  show "int (length (cardContents (updateSettings prev ns))) = n"
  proof (cases "n > int (length (cardContents prev))")
    case True
    then show ?thesis using c grow_length(2) [OF True] by simp
  next
    case False
    then show ?thesis using c a by (simp add: slice0_nonneg)
  qed
  show "cardContents (updateSettings prev ns) = take (nat n) (cardContents prev)"
    if "n \<le> int (length (cardContents prev))"
    using that c a by (simp add: slice0_nonneg)
  show "cardContents (updateSettings prev ns) =
          cardContents prev @ map luckyCard [length (cardContents prev)..<nat n]"
    if "int (length (cardContents prev)) < n"
    using that c grow_length(1) [OF that] by simp
next
  assume b: "int (length (cardContents parsed)) \<le> cardAmount parsed"
  show "cardContents (initialSettings (Parsed parsed)) =
          cardContents parsed @
          map luckyCard [length (cardContents parsed)..<nat (cardAmount parsed)]"
  proof (cases "int (length (cardContents parsed)) < cardAmount parsed")
    case True
    then show ?thesis by (simp add: initialSettings_pad)
  next
    case False
    then have "cardAmount parsed = int (length (cardContents parsed))"
      using b by simp
    then show ?thesis by (simp add: initialSettings_keep)
  qed
  then show "int (length (cardContents (initialSettings (Parsed parsed)))) = cardAmount parsed"
    using b by simp
  show "cardAmount (initialSettings (Parsed parsed)) = cardAmount parsed"
    by (simp add: initialSettings_def)
next
  assume "cardAmountP ns' = None \<or> cardAmountP ns' = Some (cardAmount prev')"
  then show "updateSettings prev' ns' = spread prev' ns'"
    by (rule updateSettings_same_amount)
next
  assume "cardAmount parsed' < int (length (cardContents parsed'))"
  then show "initialSettings (Parsed parsed') = parsed'"
    by (simp add: initialSettings_keep)
next
  show "map id_card (map luckyCard [k..<m]) = map int [k..<m]"
    by (simp add: luckyCard_def comp_def)
qed

text \<open>
  The theorem at concrete inputs: the default settings grown to 12 cards and shrunk to 4,
  the stored record \<open>sixOfTen\<close> (six entries, \<open>cardAmount = 10\<close>), an update without
  \<open>cardAmount\<close>, and a stored record \<open>fourCards\<close> whose \<open>cardAmount\<close> is lowered to 3.
\<close>

theorem cardContents_length_after_resize_witness:
  "cardAmountP (noChange\<lparr>cardAmountP := Some 12\<rparr>) = Some 12 \<and> 12 \<noteq> cardAmount defaultSettings
   \<and> (0::int) \<le> 12 \<and> int (length (cardContents defaultSettings)) < 12
   \<and> int (length (cardContents (updateSettings defaultSettings (noChange\<lparr>cardAmountP := Some 12\<rparr>)))) = 12
   \<and> cardAmountP (noChange\<lparr>cardAmountP := Some 4\<rparr>) = Some 4 \<and> 4 \<noteq> cardAmount defaultSettings
   \<and> (0::int) \<le> 4 \<and> 4 \<le> int (length (cardContents defaultSettings))
   \<and> cardContents (updateSettings defaultSettings (noChange\<lparr>cardAmountP := Some 4\<rparr>)) =
        take 4 (cardContents defaultSettings)
   \<and> int (length (cardContents sixOfTen)) \<le> cardAmount sixOfTen
   \<and> int (length (cardContents (initialSettings (Parsed sixOfTen)))) = cardAmount sixOfTen
   \<and> cardAmountP noChange = None
   \<and> updateSettings defaultSettings noChange = spread defaultSettings noChange
   \<and> cardAmount (fourCards\<lparr>cardAmount := 3\<rparr>) < int (length (cardContents (fourCards\<lparr>cardAmount := 3\<rparr>)))
   \<and> initialSettings (Parsed (fourCards\<lparr>cardAmount := 3\<rparr>)) = fourCards\<lparr>cardAmount := 3\<rparr>"
  using cardContents_length_after_resize
          [where ns = "noChange\<lparr>cardAmountP := Some 12\<rparr>" and n = 12 and prev = defaultSettings
             and parsed = sixOfTen and ns' = noChange and prev' = defaultSettings
             and parsed' = "fourCards\<lparr>cardAmount := 3\<rparr>" and k = 0 and m = 0]
        cardContents_length_after_resize
          [where ns = "noChange\<lparr>cardAmountP := Some 4\<rparr>" and n = 4 and prev = defaultSettings]
  by (simp add: noChange_def defaultSettings_def defaultCardContents_def sixOfTen_def fourCards_def)

text \<open>
  C2 as stated fails: \<open>updateSettings\<close> called with a card list only (here the empty
  list) stores that list and keeps \<open>cardAmount = 10\<close>; the stored record \<open>fourCards\<close>
  with \<open>cardAmount\<close> lowered to 3 is loaded with its four entries; and on the settings
  page opened on the defaults, setting the amount to 5, pressing "Reset to Default" and
  saving passes \<open>cardAmount = 10\<close> (unchanged) with a list of five entries, which is
  stored as it is.
\<close>

theorem cardContents_length_counterexample:
  "cardAmount (updateSettings defaultSettings (noChange\<lparr>cardContentsP := Some []\<rparr>)) = 10
   \<and> length (cardContents (updateSettings defaultSettings (noChange\<lparr>cardContentsP := Some []\<rparr>))) = 0
   \<and> cardAmount (initialSettings (Parsed (fourCards\<lparr>cardAmount := 3\<rparr>))) = 3
   \<and> length (cardContents (initialSettings (Parsed (fourCards\<lparr>cardAmount := 3\<rparr>)))) = 4
   \<and> cardAmount (handleSave defaultSettings
         (handleReset_SettingsPage (handleCardAmountChange (openSettingsPage defaultSettings) 5))) = 10
   \<and> length (cardContents (handleSave defaultSettings
         (handleReset_SettingsPage (handleCardAmountChange (openSettingsPage defaultSettings) 5)))) = 5"
  by (simp add: updateSettings_def spread_def noChange_def defaultSettings_def
                initialSettings_def fourCards_def handleSave_def handleReset_SettingsPage_def
                handleCardAmountChange_def openSettingsPage_def defaultCardContents_def
                slice0_def Let_def)

text \<open>
  C10. When the argument of \<open>updateSettings\<close> carries a \<open>cardAmount\<close> different from the
  current one, the resulting card list is built from the previous list alone (its leading
  entries, or all of it followed by synthesized entries): a card list passed in the same
  call has no effect. In particular the settings page's \<open>handleSave\<close>, which always passes
  its local list, stores none of the local text edits when the amount was changed too.
\<close>

theorem updateSettings_discards_passed_contents:
  assumes "cardAmountP ns = Some n" and "n \<noteq> cardAmount prev"
  shows "cardContents (updateSettings prev ns) =
           (if n > int (length (cardContents prev)) then
              cardContents prev @
              additional (length (cardContents prev)) (nat (n - int (length (cardContents prev))))
            else slice0 (cardContents prev) n)
         \<and> cardContents (updateSettings prev (ns\<lparr>cardContentsP := passed\<rparr>)) =
             cardContents (updateSettings prev ns)
         \<and> (localCardAmount p = n \<longrightarrow>
              cardContents (handleSave prev p) = cardContents (updateSettings prev ns))"
proof -
  let ?ns' = "ns\<lparr>cardContentsP := passed\<rparr>"
  have a: "cardAmountP ?ns' = Some n"
    using assms(1) by simp
  have 1: "cardContents (updateSettings prev ?ns') = cardContents (updateSettings prev ns)"
    by (simp only: updateSettings_changed_amount [OF a assms(2)]
                   updateSettings_changed_amount [OF assms])
  have 2: "cardContents (handleSave prev p) = cardContents (updateSettings prev ns)"
    if "localCardAmount p = n"
  proof -
    have "cardAmountP \<lparr>cardAmountP = Some (localCardAmount p),
                       cardContentsP = Some (localCardContents p),
                       moveSpeedP = Some (localMoveSpeed p),
                       deleteDrawnCardP = Some (localDeleteDrawnCard p)\<rparr> = Some n"
      using that by simp
    from updateSettings_changed_amount [OF this assms(2)] show ?thesis
      by (simp only: handleSave_def updateSettings_changed_amount [OF assms])
  qed
  show ?thesis
    using 1 2 updateSettings_changed_amount [OF assms] by blast
qed

lemma editedPage_eval:
  "localCardAmount editedPage = 5"
  "map text_card (localCardContents editedPage) =
     [''Edited'', ''Lucky Card 2'', ''Lucky Card 3'', ''Lucky Card 4'', ''Lucky Card 5'']"
  by (simp_all add: editedPage_def handleCardAmountChange_def handleCardContentChange_def
        openSettingsPage_def defaultSettings_def defaultCardContents_eval slice0_def Let_def)

text \<open>
  The theorem on the page \<open>editedPage\<close>: the first card was renamed and the amount set to 5;
  after saving, the first card still carries its old text.
\<close>

theorem updateSettings_discards_passed_contents_witness:
  "cardAmountP (noChange\<lparr>cardAmountP := Some 5\<rparr>) = Some 5 \<and> 5 \<noteq> cardAmount defaultSettings
   \<and> localCardAmount editedPage = 5
   \<and> map text_card (localCardContents editedPage) =
        [''Edited'', ''Lucky Card 2'', ''Lucky Card 3'', ''Lucky Card 4'', ''Lucky Card 5'']
   \<and> map text_card (cardContents (handleSave defaultSettings editedPage)) =
        [''Lucky Card 1'', ''Lucky Card 2'', ''Lucky Card 3'', ''Lucky Card 4'', ''Lucky Card 5'']"
  using updateSettings_discards_passed_contents
          [where ns = "noChange\<lparr>cardAmountP := Some 5\<rparr>" and n = 5 and prev = defaultSettings
             and p = editedPage and passed = None]
  by (simp add: editedPage_eval noChange_def defaultSettings_def defaultCardContents_eval
                slice0_def)

subsection \<open>Loading stored settings\<close>

text \<open>
  C4, as the code has it. A stored record with \<open>cardAmount = 10\<close> and six entries is
  loaded with exactly ten entries: the six stored ones followed by entries with the ids
  6, 7, 8, 9 and the texts "Lucky Card 7" to "Lucky Card 10". The new ids are the list
  positions; they differ from every stored id when no stored id lies between 6 and 9 (as
  with the ids 0 to 5 that the application itself gives to six cards). A record with
  \<open>cardAmount = 7\<close> and seven entries is loaded unchanged, also after it was saved.
  An unparseable item yields the default settings: ten cards "Lucky Card 1" to
  "Lucky Card 10" with the ids 0 to 9, and speed 1.
\<close>

theorem initialSettings_pad_and_roundtrip:
  "(cardAmount parsed = 10 \<and> length (cardContents parsed) = 6 \<longrightarrow>
      initialSettings (Parsed parsed) =
        parsed\<lparr>cardContents := cardContents parsed @
          [\<lparr>id_card = 6, text_card = ''Lucky Card 7''\<rparr>,
           \<lparr>id_card = 7, text_card = ''Lucky Card 8''\<rparr>,
           \<lparr>id_card = 8, text_card = ''Lucky Card 9''\<rparr>,
           \<lparr>id_card = 9, text_card = ''Lucky Card 10''\<rparr>]\<rparr>
      \<and> length (cardContents (initialSettings (Parsed parsed))) = 10
      \<and> ((\<forall>c \<in> set (cardContents parsed). id_card c < 6 \<or> 9 < id_card c) \<longrightarrow>
           set (map id_card (drop 6 (cardContents (initialSettings (Parsed parsed)))))
             \<inter> set (map id_card (cardContents parsed)) = {}))
   \<and> (cardAmount parsed' = 7 \<and> length (cardContents parsed') = 7 \<longrightarrow>
        initialSettings (Parsed parsed') = parsed' \<and> initialSettings (persist parsed') = parsed')
   \<and> initialSettings Unparseable = defaultSettings
   \<and> cardAmount defaultSettings = 10 \<and> moveSpeed defaultSettings = 1
   \<and> map id_card (cardContents defaultSettings) = [0, 1, 2, 3, 4, 5, 6, 7, 8, 9]
   \<and> map text_card (cardContents defaultSettings) =
        [''Lucky Card 1'', ''Lucky Card 2'', ''Lucky Card 3'', ''Lucky Card 4'', ''Lucky Card 5'',
         ''Lucky Card 6'', ''Lucky Card 7'', ''Lucky Card 8'', ''Lucky Card 9'', ''Lucky Card 10'']"
proof (intro conjI impI)
  assume a: "cardAmount parsed = 10 \<and> length (cardContents parsed) = 6"
  then have lt: "int (length (cardContents parsed)) < cardAmount parsed"
    by simp
  show e: "initialSettings (Parsed parsed) =
        parsed\<lparr>cardContents := cardContents parsed @
          [\<lparr>id_card = 6, text_card = ''Lucky Card 7''\<rparr>,
           \<lparr>id_card = 7, text_card = ''Lucky Card 8''\<rparr>,
           \<lparr>id_card = 8, text_card = ''Lucky Card 9''\<rparr>,
           \<lparr>id_card = 9, text_card = ''Lucky Card 10''\<rparr>]\<rparr>"
    using a by (simp add: initialSettings_pad [OF lt] luckyCard_values)
  show "length (cardContents (initialSettings (Parsed parsed))) = 10"
    using a by (simp add: e)
  show "set (map id_card (drop 6 (cardContents (initialSettings (Parsed parsed)))))
          \<inter> set (map id_card (cardContents parsed)) = {}"
    if "\<forall>c \<in> set (cardContents parsed). id_card c < 6 \<or> 9 < id_card c"
    using that a by (auto simp add: e)
next
  assume b: "cardAmount parsed' = 7 \<and> length (cardContents parsed') = 7"
  then show "initialSettings (Parsed parsed') = parsed'"
    by (simp add: initialSettings_keep)
  then show "initialSettings (persist parsed') = parsed'"
    by (simp add: persist_def)
next
  show "initialSettings Unparseable = defaultSettings"
    by (simp add: initialSettings_def)
  show "cardAmount defaultSettings = 10" "moveSpeed defaultSettings = 1"
    by (simp_all add: defaultSettings_def)
  show "map id_card (cardContents defaultSettings) = [0, 1, 2, 3, 4, 5, 6, 7, 8, 9]"
    by (simp add: defaultSettings_def defaultCardContents_eval)
  show "map text_card (cardContents defaultSettings) =
        [''Lucky Card 1'', ''Lucky Card 2'', ''Lucky Card 3'', ''Lucky Card 4'', ''Lucky Card 5'',
         ''Lucky Card 6'', ''Lucky Card 7'', ''Lucky Card 8'', ''Lucky Card 9'', ''Lucky Card 10'']"
    by (simp add: defaultSettings_def defaultCardContents_eval)
qed

text \<open>
  The theorem on \<open>sixOfTen\<close> (six default cards stored with \<open>cardAmount = 10\<close>) and on
  \<open>sevenCards\<close>.
\<close>

theorem initialSettings_pad_and_roundtrip_witness:
  "cardAmount sixOfTen = 10 \<and> length (cardContents sixOfTen) = 6
   \<and> map id_card (cardContents sixOfTen) = [0, 1, 2, 3, 4, 5]
   \<and> map id_card (cardContents (initialSettings (Parsed sixOfTen))) = [0, 1, 2, 3, 4, 5, 6, 7, 8, 9]
   \<and> set (map id_card (drop 6 (cardContents (initialSettings (Parsed sixOfTen)))))
        \<inter> set (map id_card (cardContents sixOfTen)) = {}
   \<and> cardAmount sevenCards = 7 \<and> length (cardContents sevenCards) = 7
   \<and> initialSettings (persist sevenCards) = sevenCards"
  using initialSettings_pad_and_roundtrip [where parsed = sixOfTen and parsed' = sevenCards]
  by (simp add: sixOfTen_def sevenCards_def defaultSettings_def luckyCard_def upt_rec)

text \<open>
  C4 as stated fails on the stored record \<open>storedSix\<close>, whose six entries carry the ids
  6, 1, 2, 3, 4, 5: the first appended entry gets the id 6 again.
\<close>

theorem initialSettings_ids_counterexample:
  "cardAmount storedSix = 10 \<and> length (cardContents storedSix) = 6
   \<and> map id_card (cardContents (initialSettings (Parsed storedSix))) =
        [6, 1, 2, 3, 4, 5, 6, 7, 8, 9]
   \<and> \<not> distinct (map id_card (cardContents (initialSettings (Parsed storedSix))))"
  by (simp add: storedSix_def initialSettings_def additional_def luckyCard_def upt_rec)

subsection \<open>Selecting a card\<close>

lemma js_rem_nonneg:
  assumes "0 \<le> a" and "0 < b"
  shows "js_rem a b = a - b * of_int \<lfloor>a / b\<rfloor>" and "0 \<le> js_rem a b" and "js_rem a b < b"
proof -
  have "0 \<le> a / b"
    using assms by simp
  then show e: "js_rem a b = a - b * of_int \<lfloor>a / b\<rfloor>"
    by (simp add: js_rem_def trunc_def)
  show "0 \<le> js_rem a b"
    using floor_divide_lower [OF assms(2), of a] e by (simp add: mult.commute)
  show "js_rem a b < b"
    using floor_divide_upper [OF assms(2), of a] e by (simp add: algebra_simps)
qed

lemma js_rem_neg:
  assumes "a < 0" and "0 < b"
  shows "js_rem a b = a - b * of_int \<lceil>a / b\<rceil>" and "- b < js_rem a b" and "js_rem a b \<le> 0"
proof -
  have "a / b < 0"
    using assms by (simp add: divide_neg_pos)
  then show e: "js_rem a b = a - b * of_int \<lceil>a / b\<rceil>"
    by (simp add: js_rem_def trunc_def)
  show "js_rem a b \<le> 0"
    using ceiling_divide_upper [OF assms(2), of a] e by (simp add: mult.commute)
  show "- b < js_rem a b"
    using ceiling_divide_lower [OF assms(2), of a] e by (simp add: algebra_simps)
qed

text \<open>The two remainders together are the remainder of the floored division.\<close>

lemma normalizedRotation_floor:
  "normalizedRotation rot = rot - 360 * of_int \<lfloor>rot / 360\<rfloor>"
proof -
  define r1 where "r1 = js_rem rot 360"
  obtain t :: int where t: "r1 = rot - 360 * of_int t"
    unfolding r1_def by (auto simp add: js_rem_def)
  have "- 360 < r1"
  proof (cases "0 \<le> rot")
    case True
    then show ?thesis using js_rem_nonneg(2) [of rot 360] by (simp add: r1_def)
  next
    case False
    then show ?thesis using js_rem_neg(2) [of rot 360] by (simp add: r1_def)
  qed
  then have pos: "0 \<le> r1 + 360"
    by simp
  have "normalizedRotation rot = js_rem (r1 + 360) 360"
    by (simp add: normalizedRotation_def r1_def)
  also have "\<dots> = (r1 + 360) - 360 * of_int \<lfloor>(r1 + 360) / 360\<rfloor>"
    using js_rem_nonneg(1) [OF pos, of 360] by simp
  also have "(r1 + 360) / 360 = rot / 360 + of_int (1 - t)"
    by (simp add: t field_simps)
  also have "\<lfloor>rot / 360 + of_int (1 - t)\<rfloor> = \<lfloor>rot / 360\<rfloor> + (1 - t)"
    by simp
  finally show ?thesis
    by (simp add: t algebra_simps)
qed

lemma normalizedRotation_range: "0 \<le> normalizedRotation rot" "normalizedRotation rot < 360"
proof -
  show "0 \<le> normalizedRotation rot"
    using floor_divide_lower [of 360 rot] by (simp add: normalizedRotation_floor)
  show "normalizedRotation rot < 360"
    using floor_divide_upper [of 360 rot] by (simp add: normalizedRotation_floor algebra_simps)
qed

lemma normalizedRotation_periodic:
  "normalizedRotation (360 * of_int k + theta) = normalizedRotation theta"
proof -
  have "(360 * of_int k + theta) / 360 = theta / 360 + of_int k"
    by simp
  then have "\<lfloor>(360 * of_int k + theta) / 360\<rfloor> = \<lfloor>theta / 360\<rfloor> + k"
    by (simp only: floor_add_int)
  then show ?thesis
    by (simp add: normalizedRotation_floor algebra_simps)
qed

lemma int_rem_range:
  assumes "0 \<le> m" and "0 < n"
  shows "\<exists>i. int_rem m n = Idx i \<and> 0 \<le> i \<and> i < n"
proof -
  have "int_rem m n = Idx (sgn m * (m mod n))"
    using assms by (simp add: int_rem_def)
  moreover have "0 \<le> sgn m * (m mod n)"
    using assms by (simp add: sgn_if)
  moreover have "sgn m * (m mod n) < n"
    using assms by (simp add: sgn_if)
  ultimately show ?thesis
    by blast
qed

text \<open>
  The same range in double-precision arithmetic. The angle per card is at least
  \<open>18 * (1 - 7 / 2 ^ 53)\<close>, the normalized angle is below 360, so the rounded quotient is
  below \<open>cardAmount + 1 / 2\<close> and \<open>Math.round\<close> gives at most \<open>cardAmount\<close>.
\<close>

lemma js_rem_range_360: "- 360 < js_rem rot 360" "js_rem rot 360 < 360"
proof -
  show "- 360 < js_rem rot 360"
  proof (cases "0 \<le> rot")
    case True
    then show ?thesis using js_rem_nonneg(2) [of rot 360] by simp
  next
    case False
    then show ?thesis using js_rem_neg(2) [of rot 360] by simp
  qed
  show "js_rem rot 360 < 360"
  proof (cases "0 \<le> rot")
    case True
    then show ?thesis using js_rem_nonneg(3) [of rot 360] by simp
  next
    case False
    then show ?thesis using js_rem_neg(3) [of rot 360] by simp
  qed
qed

lemma centeredCardIndex_f64_in_range:
  assumes "3 \<le> n" and "n \<le> 20"
  shows "\<exists>i. centeredCardIndex_f64 n rot = Some (Idx i) \<and> 0 \<le> i \<and> i < n"
proof -
  define x1 :: real where "x1 = 360 / of_int n"
  have n: "3 \<le> real_of_int n" "real_of_int n \<le> 20" using assms by simp_all
  have x1: "18 \<le> x1" "x1 \<le> 120"
    using n by (simp_all add: x1_def field_simps)
  then have "\<bar>x1\<bar> \<le> 1024" by simp
  then obtain apc where apc: "f64 x1 = Some apc" "\<bar>apc - x1\<bar> \<le> (\<bar>x1\<bar> + 1) / 2 ^ 53"
    using f64_close by blast
  define delta :: real where "delta = 7 / 2 ^ 53"
  have "(\<bar>x1\<bar> + 1) / 2 ^ 53 \<le> x1 * delta" using x1 by (simp add: delta_def)
  then have "\<bar>apc - x1\<bar> \<le> x1 * delta" using apc(2) by linarith
  moreover have "x1 * (1 - delta) = x1 - x1 * delta" by (simp add: algebra_simps)
  ultimately have apc_lo: "x1 * (1 - delta) \<le> apc" by linarith
  have low_pos: "0 < x1 * (1 - delta)" using x1 by (simp add: delta_def)
  then have apc_pos: "0 < apc" using apc_lo by linarith
  define r where "r = js_rem rot 360"
  have r: "0 \<le> r + 360" "\<bar>r + 360\<bar> \<le> 1024"
    using js_rem_range_360 [of rot] by (simp_all add: r_def)
  then obtain s where s: "f64 (r + 360) = Some s" "0 \<le> s"
    using f64_close [of "r + 360"] by blast
  define norm where "norm = js_rem s 360"
  have norm: "0 \<le> norm" "norm < 360"
    using js_rem_nonneg(2,3) [OF s(2), of 360] by (simp_all add: norm_def)
  define x3 where "x3 = norm / apc"
  have x3_0: "0 \<le> x3" using norm(1) apc_pos by (simp add: x3_def)
  have "x3 \<le> norm / (x1 * (1 - delta))"
    unfolding x3_def using norm(1) apc_lo low_pos by (intro divide_left_mono) (simp_all add: apc_pos)
  also have "\<dots> < 360 / (x1 * (1 - delta))"
    using norm(2) low_pos by (simp add: divide_strict_right_mono)
  also have "360 / (x1 * (1 - delta)) = real_of_int n / (1 - delta)"
  proof -
    have "x1 * real_of_int n = 360" using n by (simp add: x1_def)
    moreover have "0 < 1 - delta" by (simp add: delta_def)
    ultimately show ?thesis using x1 by (simp add: field_simps)
  qed
  also have "\<dots> \<le> real_of_int n + 1 / 8"
  proof -
    have d: "0 < 1 - delta" by (simp add: delta_def)
    have "real_of_int n \<le> (real_of_int n + 1 / 8) * (1 - delta)"
      using n by (simp add: delta_def algebra_simps)
    then show ?thesis using d by (simp add: pos_divide_le_eq)
  qed
  finally have x3_hi: "x3 < real_of_int n + 1 / 8" .
  then have "\<bar>x3\<bar> \<le> 1024" using x3_0 n by simp
  then obtain q where q: "f64 x3 = Some q" "\<bar>q - x3\<bar> \<le> (\<bar>x3\<bar> + 1) / 2 ^ 53" "0 \<le> q"
    using f64_close [of x3] x3_0 by blast
  have "(\<bar>x3\<bar> + 1) / 2 ^ 53 \<le> 1 / 8" using x3_hi x3_0 n by simp
  then have "\<bar>q - x3\<bar> \<le> 1 / 8" using q(2) by linarith
  then have "q < real_of_int n + 1 / 2" using x3_hi by linarith
  then have m_hi: "Math_round q \<le> n" unfolding Math_round_def by linarith
  have m_lo: "0 \<le> Math_round q" using q(3) by (simp add: Math_round_def)
  have npos: "0 < n" using assms by simp
  have "centeredCardIndex_f64 n rot = Some (int_rem (Math_round q) n)"
    using apc(1) s(1) q(1)
    by (simp add: centeredCardIndex_f64_def x1_def [symmetric] r_def [symmetric]
                  norm_def [symmetric] x3_def [symmetric])
  then show ?thesis using int_rem_range [OF m_lo npos] by simp
qed

text \<open>
  In double-precision arithmetic the first remainder is exact, so two angles of the same
  sign that differ by a multiple of 360 go the same way from there on.
\<close>

lemma js_rem_shift_same_sign:
  assumes "(0 \<le> theta \<and> 0 \<le> 360 * of_int k + theta) \<or> (theta < 0 \<and> 360 * of_int k + theta < 0)"
  shows "js_rem (360 * of_int k + theta) 360 = js_rem theta 360"
proof -
  have q: "(360 * of_int k + theta) / 360 = theta / 360 + of_int k" by simp
  from assms show ?thesis
  proof
    assume a: "0 \<le> theta \<and> 0 \<le> 360 * of_int k + theta"
    have "\<lfloor>(360 * of_int k + theta) / 360\<rfloor> = \<lfloor>theta / 360\<rfloor> + k"
      by (simp only: q floor_add_int)
    then show ?thesis
      using a js_rem_nonneg(1) [of theta 360] js_rem_nonneg(1) [of "360 * of_int k + theta" 360]
      by (simp add: algebra_simps)
  next
    assume a: "theta < 0 \<and> 360 * of_int k + theta < 0"
    have "\<lceil>(360 * of_int k + theta) / 360\<rceil> = \<lceil>theta / 360\<rceil> + k"
      by (simp only: q ceiling_add_of_int)
    then show ?thesis
      using a js_rem_neg(1) [of theta 360] js_rem_neg(1) [of "360 * of_int k + theta" 360]
      by (simp add: algebra_simps)
  qed
qed

lemma centeredCardIndex_f64_same_sign:
  assumes "(0 \<le> theta \<and> 0 \<le> 360 * of_int k + theta) \<or> (theta < 0 \<and> 360 * of_int k + theta < 0)"
  shows "centeredCardIndex_f64 n (360 * of_int k + theta) = centeredCardIndex_f64 n theta"
  by (simp add: centeredCardIndex_f64_def js_rem_shift_same_sign [OF assms])

text \<open>
  Across zero the sum \<open>(a % 360) + 360\<close> is rounded on one side only. The angles
  \<open>180 - 1 / 2 ^ 45\<close> (179.99999999999997) and \<open>- 180 - 1 / 2 ^ 45\<close>
  (-180.00000000000003) are doubles that differ by 360. With three cards, the first is
  shifted to 540 (the exact sum \<open>540 - 1 / 2 ^ 45\<close> lies between the doubles
  \<open>540 - 1 / 2 ^ 43\<close> and 540), normalized to 180 and divided to 1.5, which rounds to 2.
  The second is shifted to \<open>180 - 1 / 2 ^ 45\<close> exactly, and its quotient, just below 1.5,
  rounds to 1.
\<close>

lemma f64_representable:
  "f64 (180 - 1 / 2 ^ 45) = Some (180 - 1 / 2 ^ 45)"
  "f64 (- 180 - 1 / 2 ^ 45) = Some (- 180 - 1 / 2 ^ 45)"
  using f64_normal [of 7 "180 - 1 / 2 ^ 45" 6333186975989759]
        f64_normal [of 7 "- 180 - 1 / 2 ^ 45" "- 6333186975989761"]
  by simp_all

lemma f64_120: "f64 120 = Some 120"
  using f64_normal [of 6 120 8444249301319680] by simp

lemma f64_shift_up: "f64 (180 - 1 / 2 ^ 45 + 360) = Some 540"
  using f64_normal [of 9 "180 - 1 / 2 ^ 45 + 360" 4749890231992320] by simp

lemma f64_three_halves: "f64 (180 / 120) = Some (3 / 2)"
  using f64_normal [of 0 "180 / 120" 6755399441055744] by simp

lemma f64_shift_down: "f64 (- 180 - 1 / 2 ^ 45 + 360) = Some (180 - 1 / 2 ^ 45)"
  using f64_normal [of 7 "- 180 - 1 / 2 ^ 45 + 360" 6333186975989759] by simp

lemma f64_quotient_below:
  "f64 ((180 - 1 / 2 ^ 45) / 120) = Some (6755399441055743 / 4503599627370496)"
  using f64_normal [of 0 "(180 - 1 / 2 ^ 45) / 120" 6755399441055743] by simp

lemma centeredCardIndex_f64_above: "centeredCardIndex_f64 3 (180 - 1 / 2 ^ 45) = Some (Idx 2)"
  by (simp add: centeredCardIndex_f64_def js_rem_def trunc_def f64_120 [simplified]
                f64_shift_up [simplified] f64_three_halves [simplified] Math_round_def
                int_rem_def)

lemma centeredCardIndex_f64_below:
  "centeredCardIndex_f64 3 (- 180 - 1 / 2 ^ 45) = Some (Idx 1)"
  by (simp add: centeredCardIndex_f64_def js_rem_def trunc_def f64_120 [simplified]
                f64_shift_down [simplified] f64_quotient_below [simplified] Math_round_def
                int_rem_def)

text \<open>Ten cards at the angles \<open>- 725.5\<close>, 100 and 820.\<close>

lemma centeredCardIndex_values:
  "centeredCardIndex 10 (- 725.5) = Idx 0"
  "centeredCardIndex 10 100 = Idx 3"
  "centeredCardIndex 10 (360 * of_int (- 2) + 100) = Idx 3"
  "centeredCardIndex 4 0 = Idx 0"
  by (simp_all add: centeredCardIndex_def int_rem_def Math_round_def normalizedRotation_def
                    js_rem_def trunc_def)

lemma f64_36: "f64 36 = Some 36"
  using f64_normal [of 5 36 5066549580791808] by simp

lemma f64_354: "f64 (- 5.5 + 360) = Some 354.5"
  using f64_normal [of 8 "- 5.5 + 360" 6236429952745472] by simp

lemma f64_354_by_36: "f64 (354.5 / 36) = Some (5543493291329308 / 2 ^ 49)"
  using f64_normal [of 3 "354.5 / 36" 5543493291329308] by simp

lemma f64_460: "f64 (100 + 360) = Some 460"
  using f64_normal [of 8 "100 + 360" 8092405580431360] by simp

lemma f64_100_by_36: "f64 (100 / 36) = Some (6254999482459022 / 2 ^ 51)"
  using f64_normal [of 1 "100 / 36" 6254999482459022] by simp

lemma centeredCardIndex_f64_values:
  "centeredCardIndex_f64 10 (- 725.5) = Some (Idx 0)"
  "centeredCardIndex_f64 10 100 = Some (Idx 3)"
  "centeredCardIndex_f64 10 (360 * of_int 2 + 100) = Some (Idx 3)"
  by (simp_all add: centeredCardIndex_f64_def js_rem_def trunc_def f64_36 [simplified]
                    f64_354 [simplified] f64_354_by_36 [simplified] f64_460 [simplified]
                    f64_100_by_36 [simplified] Math_round_def int_rem_def)

text \<open>
  C1. For every card amount from 3 to 20 and every rotation angle, the index that
  \<open>handleConfirm\<close> selects is a number \<open>i\<close> with \<open>0 \<le> i < cardAmount\<close>, in exact
  arithmetic and in double-precision arithmetic.
\<close>

theorem centeredCardIndex_in_range:
  assumes "3 \<le> n" and "n \<le> 20"
  shows "(\<exists>i. centeredCardIndex n rot = Idx i \<and> 0 \<le> i \<and> i < n)
         \<and> (\<exists>i. centeredCardIndex_f64 n rot = Some (Idx i) \<and> 0 \<le> i \<and> i < n)"
proof
  have npos: "0 < n"
    using assms by simp
  have "0 \<le> normalizedRotation rot / (360 / of_int n)"
    using normalizedRotation_range(1) [of rot] npos by simp
  then have "0 \<le> Math_round (normalizedRotation rot / (360 / of_int n))"
    by (simp add: Math_round_def)
  then show "\<exists>i. centeredCardIndex n rot = Idx i \<and> 0 \<le> i \<and> i < n"
    using int_rem_range [OF _ npos] by (simp add: centeredCardIndex_def)
  show "\<exists>i. centeredCardIndex_f64 n rot = Some (Idx i) \<and> 0 \<le> i \<and> i < n"
    using assms by (rule centeredCardIndex_f64_in_range)
qed

text \<open>
  Ten cards at the angle \<open>- 725.5\<close>: the angle is normalized to 354.5, the quotient by 36
  rounds to 10, and the remainder by 10 is the index 0.
\<close>

theorem centeredCardIndex_in_range_witness:
  "(3::int) \<le> 10 \<and> (10::int) \<le> 20
   \<and> centeredCardIndex 10 (- 725.5) = Idx 0
   \<and> centeredCardIndex_f64 10 (- 725.5) = Some (Idx 0)
   \<and> (\<exists>i. centeredCardIndex 10 (- 725.5) = Idx i \<and> 0 \<le> i \<and> i < 10)
   \<and> (\<exists>i. centeredCardIndex_f64 10 (- 725.5) = Some (Idx i) \<and> 0 \<le> i \<and> i < 10)"
  using centeredCardIndex_in_range [of 10 "- 725.5"] centeredCardIndex_values(1)
        centeredCardIndex_f64_values(1)
  by simp

text \<open>
  C8. For every card amount from 3 to 20, every angle \<open>theta\<close> and every integer \<open>k\<close>:
  in exact arithmetic the index selected at the angle \<open>360 * k + theta\<close> is the index
  selected at \<open>theta\<close>; in double-precision arithmetic it is when the two angles are both
  non-negative or both negative.
\<close>

theorem centeredCardIndex_periodic:
  assumes "3 \<le> n" and "n \<le> 20"
  shows "centeredCardIndex n (360 * of_int k + theta) = centeredCardIndex n theta
         \<and> centeredCardIndex n theta \<noteq> NaN
         \<and> ((0 \<le> theta \<and> 0 \<le> 360 * of_int k + theta)
              \<or> (theta < 0 \<and> 360 * of_int k + theta < 0) \<longrightarrow>
            centeredCardIndex_f64 n (360 * of_int k + theta) = centeredCardIndex_f64 n theta
            \<and> centeredCardIndex_f64 n theta \<noteq> Some NaN
            \<and> centeredCardIndex_f64 n theta \<noteq> None)"
proof (intro conjI impI)
  show "centeredCardIndex n (360 * of_int k + theta) = centeredCardIndex n theta"
    by (simp add: centeredCardIndex_def normalizedRotation_periodic)
  show "centeredCardIndex n theta \<noteq> NaN"
    using assms by (simp add: centeredCardIndex_def int_rem_def)
  show "centeredCardIndex_f64 n theta \<noteq> Some NaN" "centeredCardIndex_f64 n theta \<noteq> None"
    using centeredCardIndex_f64_in_range [OF assms, of theta] by auto
next
  assume "(0 \<le> theta \<and> 0 \<le> 360 * of_int k + theta)
          \<or> (theta < 0 \<and> 360 * of_int k + theta < 0)"
  then show "centeredCardIndex_f64 n (360 * of_int k + theta) = centeredCardIndex_f64 n theta"
    by (rule centeredCardIndex_f64_same_sign)
qed

text \<open>
  Ten cards: in exact arithmetic at the angles 100 and \<open>100 - 720\<close>, in double-precision
  arithmetic at the angles 100 and \<open>100 + 720\<close>: the fourth card (index 3) every time.
\<close>

theorem centeredCardIndex_periodic_witness:
  "(3::int) \<le> 10 \<and> (10::int) \<le> 20
   \<and> centeredCardIndex 10 (360 * of_int (- 2) + 100) = centeredCardIndex 10 100
   \<and> centeredCardIndex 10 100 = Idx 3
   \<and> (0::real) \<le> 100 \<and> (0::real) \<le> 360 * of_int 2 + 100
   \<and> centeredCardIndex_f64 10 (360 * of_int 2 + 100) = centeredCardIndex_f64 10 100
   \<and> centeredCardIndex_f64 10 100 = Some (Idx 3)"
  using centeredCardIndex_periodic [of 10 "- 2" 100] centeredCardIndex_periodic [of 10 2 100]
        centeredCardIndex_values(2) centeredCardIndex_f64_values(2)
  by simp

text \<open>
  Three cards in double-precision arithmetic: the angle -180.00000000000003 selects the
  card of index 1, the angle 179.99999999999997, which is 360 more, the card of index 2.
\<close>

theorem centeredCardIndex_f64_across_zero_counterexample:
  "360 * of_int 1 + (- 180 - 1 / 2 ^ 45) = (180 - 1 / 2 ^ 45 :: real)
   \<and> f64 (- 180 - 1 / 2 ^ 45) = Some (- 180 - 1 / 2 ^ 45)
   \<and> f64 (180 - 1 / 2 ^ 45) = Some (180 - 1 / 2 ^ 45)
   \<and> centeredCardIndex_f64 3 (- 180 - 1 / 2 ^ 45) = Some (Idx 1)
   \<and> centeredCardIndex_f64 3 (360 * of_int 1 + (- 180 - 1 / 2 ^ 45)) = Some (Idx 2)"
proof -
  have "360 * of_int 1 + (- 180 - 1 / 2 ^ 45) = (180 - 1 / 2 ^ 45 :: real)"
    by simp
  then show ?thesis
    using f64_representable centeredCardIndex_f64_below centeredCardIndex_f64_above
    by (simp only: simp_thms)
qed

subsection \<open>Drawing again\<close>

text \<open>
  With removal switched on, a card selected and four cards in the pool, the new pool is
  the first three cards of the old one, whichever card was drawn.
\<close>

lemma handleReset_pool_of_four:
  assumes "deleteDrawnCard (settings s) = Some True" and "selectedCard s = Some i"
    and "cardAmount (settings s) = 4" and "length (cardContents (settings s)) = 4"
  shows "cardContents (settings (handleReset s)) = take 3 (cardContents (settings s))"
    and "cardAmount (settings (handleReset s)) = 3"
  using assms
  by (simp_all add: handleReset_def updateSettings_def spread_def noChange_def slice0_def Let_def)

text \<open>A pool of three or fewer cards is left as it is, and the amount stays at 3 or more.\<close>

lemma handleReset_small_pool:
  assumes "length (cardContents (settings s)) \<le> 3"
  shows "settings (handleReset s) = settings s"
  using assms by (simp add: handleReset_def Let_def)

lemma handleReset_floor:
  assumes "3 \<le> cardAmount (settings s)"
  shows "3 \<le> cardAmount (settings (handleReset s))"
proof -
  have "cardAmount (updateSettings st
          (noChange\<lparr>cardContentsP := Some cs, cardAmountP := Some (max 3 m)\<rparr>)) = max 3 m"
    for st cs m
    by (simp add: updateSettings_def spread_def noChange_def Let_def)
  then show ?thesis
    using assms by (simp add: handleReset_def Let_def)
qed

text \<open>
  C3 at the page \<open>drawnFirst\<close>: four cards A, B, C, D, removal of drawn cards switched on,
  the first card (A) selected. \<open>handleReset\<close> filters A out of the list and lowers the
  amount to 3, but \<open>updateSettings\<close>, seeing a changed amount, replaces the passed list by
  the first three entries of the previous one: the pool becomes A, B, C. The drawn card A
  stays, the last card D is lost.
\<close>

theorem handleReset_keeps_drawn_card:
  "selectedCard drawnFirst = Some (Idx 0)
   \<and> map text_card (withoutIndex (selectedCard drawnFirst) (cardContents (settings drawnFirst))) =
        [''B'', ''C'', ''D'']
   \<and> map text_card (cardContents (settings (handleReset drawnFirst))) = [''A'', ''B'', ''C'']
   \<and> cardAmount (settings (handleReset drawnFirst)) = 3"
  by (simp add: centeredCardIndex_values(4) handleReset_def drawnFirst_def fourCards_def
                updateSettings_def spread_def noChange_def slice0_def Let_def withoutIndex_def)

subsection \<open>The pinch trigger\<close>










subsection \<open>Card placement\<close>







subsection \<open>Gesture speed\<close>



















subsection \<open>Frames without a hand\<close>



end
